theory Spec2Isabelle
  imports Complex_Main "HOL-Library.Word"
begin

section \<open>Betweenness centrality of graph-tool: the data model\<close>

text \<open>
  The development follows \<^verbatim>\<open>src/graph/centrality/graph_betweenness.cc\<close>.
  Conventions of the embedding:
  \<^item> \<^verbatim>\<open>size_t\<close> is a 64-bit word and \<^verbatim>\<open>int\<close> a 32-bit two's complement word (LP64);
    products and conversions wrap as the C++ ones do.
  \<^item> \<^verbatim>\<open>double\<close> and \<^verbatim>\<open>long double\<close> values are idealised as real numbers: rounding,
    infinities and NaN are outside the model.
  \<^item> A property map is a total function from the vertex or edge index to its value; the
    maps handed to one call are taken to have separate storage.
\<close>

type_synonym size_t = "64 word"
type_synonym c_int = "32 word"

text \<open>
  The graph view a functor is instantiated with: \<^verbatim>\<open>num_vertices(g)\<close>, the vertex filter
  (\<^verbatim>\<open>vertex(i, g)\<close> is \<^verbatim>\<open>null_vertex()\<close> for a masked index), the edges in iteration order
  (an edge descriptor is the position in this list) and whether the directed category is
  convertible to \<^verbatim>\<open>undirected_tag\<close>.
\<close>

record graph =
  num_vertices :: nat
  vertex_ok :: "nat \<Rightarrow> bool"
  edge_list :: "(nat \<times> nat) list"
  undirected :: bool

definition vertex :: "nat \<Rightarrow> graph \<Rightarrow> nat option" where
  "vertex i g = (if vertex_ok g i then Some i else None)"

definition edges :: "graph \<Rightarrow> nat list" where
  "edges g = [0..<length (edge_list g)]"

definition vertices :: "graph \<Rightarrow> nat list" where
  "vertices g = filter (vertex_ok g) [0..<num_vertices g]"

definition wf_graph :: "graph \<Rightarrow> bool" where
  "wf_graph g \<longleftrightarrow>
     list_all (\<lambda>(a, b). a < num_vertices g \<and> b < num_vertices g \<and> vertex_ok g a \<and> vertex_ok g b)
       (edge_list g)"

section \<open>The normalization pass\<close>

text \<open>Lines 39 to 46: the two factors, computed in \<^verbatim>\<open>size_t\<close> before the division.\<close>

definition vfactor_of :: "size_t \<Rightarrow> real" where
  "vfactor_of n = (if 2 < n then 1 / real (unat ((n - 1) * (n - 2))) else 1)"

definition efactor_of :: "size_t \<Rightarrow> real" where
  "efactor_of n = (if 1 < n then 1 / real (unat (n * (n - 1))) else 1)"

definition vfactor :: "graph \<Rightarrow> size_t \<Rightarrow> real" where
  "vfactor g n = (if undirected g then vfactor_of n * 2 else vfactor_of n)"

definition efactor :: "graph \<Rightarrow> size_t \<Rightarrow> real" where
  "efactor g n = (if undirected g then efactor_of n * 2 else efactor_of n)"

text \<open>Line 48: \<^verbatim>\<open>int N = num_vertices(g)\<close>, a narrowing conversion.\<close>

definition loop_bound :: "graph \<Rightarrow> int" where
  "loop_bound g = sint (word_of_nat (num_vertices g) :: c_int)"

definition scale_vertex :: "graph \<Rightarrow> real \<Rightarrow> nat \<Rightarrow> (nat \<Rightarrow> real) \<Rightarrow> (nat \<Rightarrow> real)" where
  "scale_vertex g f i vb =
     (case vertex i g of None \<Rightarrow> vb | Some v \<Rightarrow> vb(v := f * vb v))"

definition scale_edge :: "real \<Rightarrow> nat \<Rightarrow> (nat \<Rightarrow> real) \<Rightarrow> (nat \<Rightarrow> real)" where
  "scale_edge f e eb = eb(e := f * eb e)"

text \<open>
  \<^verbatim>\<open>normalize_betweenness\<close>: the vertex loop runs \<^verbatim>\<open>i\<close> from 0 while \<^verbatim>\<open>i < N\<close>, the edge
  loop over \<^verbatim>\<open>edges(g)\<close>. The result is the pair of updated maps, edge map first, as in the
  parameter list.
\<close>

definition normalize_betweenness ::
  "graph \<Rightarrow> (nat \<Rightarrow> real) \<Rightarrow> (nat \<Rightarrow> real) \<Rightarrow> size_t \<Rightarrow> (nat \<Rightarrow> real) \<times> (nat \<Rightarrow> real)" where
  "normalize_betweenness g edge_betweenness vertex_betweenness n =
     (fold (scale_edge (efactor g n)) (edges g) edge_betweenness,
      fold (scale_vertex g (vfactor g n)) [0..<nat (loop_bound g)] vertex_betweenness)"

section \<open>Type-erased arguments and the dispatch\<close>

text \<open>
  Modelled from the spec: the property map types of the dispatch layer
  (\<^verbatim>\<open>graph_properties.hh\<close> and \<^verbatim>\<open>graph_filtering.hh\<close>, not among the sources), a closed,
  enumerated set of value types of which some are scalar and, of these, some floating. A
  \<^verbatim>\<open>boost::any\<close> argument is empty, holds a property map (its key kind, its value type and
  its contents) or holds something else; \<^verbatim>\<open>belongs\<close> tests the type it holds against a list.
\<close>

datatype key_type = vertex_key | edge_key

datatype value_type = Uint8 | Int32 | Int64 | Double | LongDouble | String

datatype any = AnyEmpty | AnyMap key_type value_type "nat \<Rightarrow> real" | AnyOther

definition floating_types :: "value_type list" where
  "floating_types = [Double, LongDouble]"

definition scalar_types :: "value_type list" where
  "scalar_types = [Uint8, Int32, Int64, Double, LongDouble]"

definition edge_floating_properties :: "(key_type \<times> value_type) list" where
  "edge_floating_properties = map (Pair edge_key) floating_types"

definition vertex_floating_properties :: "(key_type \<times> value_type) list" where
  "vertex_floating_properties = map (Pair vertex_key) floating_types"

definition vertex_scalar_properties :: "(key_type \<times> value_type) list" where
  "vertex_scalar_properties = map (Pair vertex_key) scalar_types"

definition any_empty :: "any \<Rightarrow> bool" where
  "any_empty a = (case a of AnyEmpty \<Rightarrow> True | _ \<Rightarrow> False)"

definition belongs :: "(key_type \<times> value_type) list \<Rightarrow> any \<Rightarrow> bool" where
  "belongs types a = (case a of AnyMap k t m \<Rightarrow> (k, t) \<in> set types | _ \<Rightarrow> False)"

text \<open>
  \<^verbatim>\<open>any_cast<T>(a)\<close> yields the held map when \<^verbatim>\<open>a\<close> holds exactly the type \<^verbatim>\<open>T\<close> and throws
  \<^verbatim>\<open>bad_any_cast\<close> otherwise.
\<close>

datatype exn = GraphException string | bad_any_cast | ActionNotFound

definition any_cast :: "key_type \<times> value_type \<Rightarrow> any \<Rightarrow> exn + (nat \<Rightarrow> real)" where
  "any_cast T a =
     (case a of AnyMap k t m \<Rightarrow> if (k, t) = T then Inr m else Inl bad_any_cast
      | _ \<Rightarrow> Inl bad_any_cast)"

text \<open>
  Modelled from the spec: \<^verbatim>\<open>GraphInterface\<close> (\<^verbatim>\<open>graph.hh\<close>, not among the sources) as far as
  the entry points use it, the graph view the dispatch selects and the vertex count
  \<^verbatim>\<open>GetNumberOfVertices()\<close>.
\<close>

record GraphInterface =
  view :: graph
  GetNumberOfVertices :: size_t

section \<open>The functors and the entry points\<close>

text \<open>
  \<^verbatim>\<open>brandes_betweenness_centrality\<close> and \<^verbatim>\<open>central_point_dominance\<close> are routines of the
  Boost Graph Library. The functors and entry points take them as parameters: the
  unweighted routine \<open>ubr\<close>, the weighted routine \<open>wbr\<close> (vertex map first, as in the calls;
  \<open>None\<close> when the routine does not return) and the dominance routine \<open>cpd\<close>.
\<close>

type_synonym pmap = "nat \<Rightarrow> real"
type_synonym brandes_routine = "graph \<Rightarrow> pmap \<Rightarrow> pmap \<Rightarrow> (pmap \<times> pmap) option"
type_synonym weighted_brandes_routine = "graph \<Rightarrow> pmap \<Rightarrow> pmap \<Rightarrow> pmap \<Rightarrow> (pmap \<times> pmap) option"

text \<open>Results of a functor: the exception it threw or the edge and vertex maps it leaves.\<close>

definition get_betweenness ::
  "brandes_routine \<Rightarrow> graph \<Rightarrow> pmap \<Rightarrow> pmap \<Rightarrow> bool \<Rightarrow> size_t \<Rightarrow> (exn + pmap \<times> pmap) option" where
  "get_betweenness ubr g edge_betweenness vertex_betweenness normalize_flag n =
     (case ubr g vertex_betweenness edge_betweenness of
        None \<Rightarrow> None
      | Some (vb, eb) \<Rightarrow>
          Some (Inr (if normalize_flag then normalize_betweenness g eb vb n else (eb, vb))))"

text \<open>
  In the weighted functor the cast of \<^verbatim>\<open>weight_map\<close> to the type \<^verbatim>\<open>EdgeBetweenness\<close> is an
  argument of the library call, evaluated before the routine starts.
\<close>

definition get_weighted_betweenness ::
  "weighted_brandes_routine \<Rightarrow> graph \<Rightarrow> key_type \<times> value_type \<Rightarrow> pmap \<Rightarrow> pmap \<Rightarrow> any \<Rightarrow>
     bool \<Rightarrow> size_t \<Rightarrow> (exn + pmap \<times> pmap) option" where
  "get_weighted_betweenness wbr g EdgeBetweenness edge_betweenness vertex_betweenness
       weight_map normalize_flag n =
     (case any_cast EdgeBetweenness weight_map of
        Inl ex \<Rightarrow> Some (Inl ex)
      | Inr w \<Rightarrow>
          (case wbr g vertex_betweenness edge_betweenness w of
             None \<Rightarrow> None
           | Some (vb, eb) \<Rightarrow>
               Some (Inr (if normalize_flag then normalize_betweenness g eb vb n else (eb, vb)))))"

text \<open>
  Modelled from the spec: \<^verbatim>\<open>run_action\<close> of the dispatch layer (not among the sources), the
  selection at run time of the instantiation for the types the two arguments hold; arguments
  outside the lists match no instantiation, which is reported as an exception. What the call
  leaves behind is the exception (if any) and the two arguments with their maps as the action
  left them.
\<close>

type_synonym outcome = "exn option \<times> any \<times> any"

definition run_action ::
  "(key_type \<times> value_type) list \<Rightarrow> (key_type \<times> value_type) list \<Rightarrow>
   (key_type \<times> value_type \<Rightarrow> pmap \<Rightarrow> pmap \<Rightarrow> (exn + pmap \<times> pmap) option) \<Rightarrow>
   any \<Rightarrow> any \<Rightarrow> outcome option" where
  "run_action TR1 TR2 action a1 a2 =
     (case (a1, a2) of
        (AnyMap k1 t1 m1, AnyMap k2 t2 m2) \<Rightarrow>
          if (k1, t1) \<in> set TR1 \<and> (k2, t2) \<in> set TR2
          then (case action (k1, t1) m1 m2 of
                  None \<Rightarrow> None
                | Some (Inl ex) \<Rightarrow> Some (Some ex, a1, a2)
                | Some (Inr (m1', m2')) \<Rightarrow> Some (None, AnyMap k1 t1 m1', AnyMap k2 t2 m2'))
          else Some (Some ActionNotFound, a1, a2)
      | _ \<Rightarrow> Some (Some ActionNotFound, a1, a2))"

text \<open>The entry point \<^verbatim>\<open>betweenness\<close>, lines 124 to 156.\<close>

definition betweenness ::
  "brandes_routine \<Rightarrow> weighted_brandes_routine \<Rightarrow> GraphInterface \<Rightarrow> any \<Rightarrow> any \<Rightarrow> any \<Rightarrow> bool \<Rightarrow>
     outcome option" where
  "betweenness ubr wbr g weight edge_betweenness vertex_betweenness normalize_flag =
     (if \<not> belongs edge_floating_properties edge_betweenness
      then Some (Some (GraphException ''edge property must be of floating point value type''),
                 edge_betweenness, vertex_betweenness)
      else if \<not> belongs vertex_floating_properties vertex_betweenness
      then Some (Some (GraphException ''vertex property must be of floating point value type''),
                 edge_betweenness, vertex_betweenness)
      else if \<not> any_empty weight
      then run_action edge_floating_properties vertex_floating_properties
             (\<lambda>T eb vb. get_weighted_betweenness wbr (view g) T eb vb weight normalize_flag
                          (GetNumberOfVertices g))
             edge_betweenness vertex_betweenness
      else run_action edge_floating_properties vertex_floating_properties
             (\<lambda>T eb vb. get_betweenness ubr (view g) eb vb normalize_flag (GetNumberOfVertices g))
             edge_betweenness vertex_betweenness)"

text \<open>
  The entry point \<^verbatim>\<open>central_point\<close>, lines 158 to 177: \<^verbatim>\<open>c\<close> starts at 0.0 and is written
  by the functor only. The result lists the exception (if any), the value of \<^verbatim>\<open>c\<close>, and the
  graph and the argument as the call leaves them.
\<close>

definition get_central_point_dominance ::
  "(graph \<Rightarrow> pmap \<Rightarrow> real) \<Rightarrow> graph \<Rightarrow> pmap \<Rightarrow> real \<Rightarrow> real" where
  "get_central_point_dominance cpd g vertex_betweenness c = cpd g vertex_betweenness"

definition central_point ::
  "(graph \<Rightarrow> pmap \<Rightarrow> real) \<Rightarrow> GraphInterface \<Rightarrow> any \<Rightarrow> exn option \<times> real \<times> GraphInterface \<times> any" where
  "central_point cpd g vertex_betweenness =
     (let c = 0 in
      case vertex_betweenness of
        AnyMap k t m \<Rightarrow>
          if (k, t) \<in> set vertex_scalar_properties
          then (None, get_central_point_dominance cpd (view g) m c, g, vertex_betweenness)
          else (Some ActionNotFound, c, g, vertex_betweenness)
      | _ \<Rightarrow> (Some ActionNotFound, c, g, vertex_betweenness))"

section \<open>The library routines, from the specification\<close>

text \<open>
  Modelled from the spec: the out-edge iteration of the graph view (an external collaborator,
  not among the sources). An entry is an edge descriptor with the vertex at its far end; for
  an undirected graph the iteration is symmetric, so an edge shows at both of its ends.
\<close>

definition out_edges :: "graph \<Rightarrow> nat \<Rightarrow> (nat \<times> nat) list" where
  "out_edges g u =
     concat (map (\<lambda>(e, a, b). (if a = u then [(e, b)] else []) @
                               (if undirected g \<and> b = u then [(e, a)] else []))
                 (enumerate 0 (edge_list g)))"

text \<open>
  Modelled from the spec: the per-source state of section 3, under the names the functors give
  the buffers: the distance map (no entry: not visited), the path counts \<open>sigma\<close> (a vector of
  \<^verbatim>\<open>size_t\<close>, lines 80 and 110), the predecessor edges with their source vertices, the queue
  of the traversal, and the visited vertices, latest first.
\<close>

record 'd search =
  distance_map :: "nat \<Rightarrow> 'd option"
  path_count_map :: "nat \<Rightarrow> size_t"
  incoming_map :: "nat \<Rightarrow> (nat \<times> nat) list"
  queue :: "nat list"
  ordered_vertices :: "nat list"

definition init_search :: "nat \<Rightarrow> 'd \<Rightarrow> 'd search" where
  "init_search s d0 =
     \<lparr>distance_map = Map.empty(s \<mapsto> d0), path_count_map = (\<lambda>v. 0)(s := 1),
      incoming_map = (\<lambda>v. []), queue = [s], ordered_vertices = []\<rparr>"

definition add_path :: "nat \<Rightarrow> nat \<Rightarrow> nat \<Rightarrow> 'd search \<Rightarrow> 'd search" where
  "add_path u e v st =
     st\<lparr>incoming_map := (incoming_map st)(v := incoming_map st v @ [(e, u)]),
        path_count_map := (path_count_map st)(v := path_count_map st v + path_count_map st u)\<rparr>"

text \<open>
  Modelled from the spec: the unweighted shortest-path accumulator of section 4.1 (inside the
  library routine, not among the sources). Relaxing the edge from \<open>u\<close> (at distance \<open>du\<close>) to
  \<open>v\<close>: an unvisited \<open>v\<close> gets distance \<open>du + 1\<close>, is enqueued and gets \<open>sigma = 0\<close>; when then
  \<open>dist v = du + 1\<close> the edge joins the predecessors of \<open>v\<close> and \<open>sigma v\<close> grows by \<open>sigma u\<close>;
  any other edge is ignored.
\<close>

definition bfs_relax :: "nat \<Rightarrow> nat \<Rightarrow> nat \<times> nat \<Rightarrow> nat search \<Rightarrow> nat search" where
  "bfs_relax du u ev st =
     (case ev of (e, v) \<Rightarrow>
        let st1 = (case distance_map st v of
                     None \<Rightarrow> st\<lparr>distance_map := (distance_map st)(v \<mapsto> du + 1),
                                path_count_map := (path_count_map st)(v := 0),
                                queue := queue st @ [v]\<rparr>
                   | Some dv \<Rightarrow> st)
        in if distance_map st1 v = Some (du + 1) then add_path u e v st1 else st1)"

definition bfs_visit :: "graph \<Rightarrow> nat \<Rightarrow> nat list \<Rightarrow> nat search \<Rightarrow> nat search" where
  "bfs_visit g u q st =
     (let st' = st\<lparr>queue := q, ordered_vertices := u # ordered_vertices st\<rparr>
      in case distance_map st u of
           None \<Rightarrow> st'
         | Some du \<Rightarrow> fold (bfs_relax du u) (out_edges g u) st')"

text \<open>
  The traversal runs while the queue is not empty. The first argument bounds the number of
  vertices taken from the queue; \<open>None\<close> says the bound was reached with the queue not empty.
\<close>

fun bfs_loop :: "nat \<Rightarrow> graph \<Rightarrow> nat search \<Rightarrow> nat search option" where
  "bfs_loop 0 g st = (if queue st = [] then Some st else None)"
| "bfs_loop (Suc k) g st =
     (case queue st of [] \<Rightarrow> Some st | u # q \<Rightarrow> bfs_loop k g (bfs_visit g u q st))"

definition bfs_from :: "graph \<Rightarrow> nat \<Rightarrow> nat search option" where
  "bfs_from g s = bfs_loop (num_vertices g) g (init_search s 0)"

text \<open>
  Modelled from the spec: the weighted accumulator of section 4.1, the same rule with
  \<open>dist u + w (u, v)\<close> in place of \<open>dist u + 1\<close> and exact equality. A strictly shorter
  distance to a vertex already met replaces its distance and restarts its count and its
  predecessors. The queue is a priority queue: the vertex of least distance leaves first,
  the earliest such on a tie.
\<close>

definition dijkstra_relax ::
  "pmap \<Rightarrow> real \<Rightarrow> nat \<Rightarrow> nat \<times> nat \<Rightarrow> real search \<Rightarrow> real search" where
  "dijkstra_relax w du u ev st =
     (case ev of (e, v) \<Rightarrow>
        let d = du + w e;
            st1 = (case distance_map st v of
                     None \<Rightarrow> st\<lparr>distance_map := (distance_map st)(v \<mapsto> d),
                                path_count_map := (path_count_map st)(v := 0),
                                queue := queue st @ [v]\<rparr>
                   | Some dv \<Rightarrow>
                       if d < dv
                       then st\<lparr>distance_map := (distance_map st)(v \<mapsto> d),
                               path_count_map := (path_count_map st)(v := 0),
                               incoming_map := (incoming_map st)(v := [])\<rparr>
                       else st)
        in if distance_map st1 v = Some d then add_path u e v st1 else st1)"

definition closer :: "real option \<Rightarrow> real option \<Rightarrow> bool" where
  "closer a b =
     (case a of None \<Rightarrow> False | Some x \<Rightarrow> (case b of None \<Rightarrow> True | Some y \<Rightarrow> x < y))"

fun min_vertex :: "(nat \<Rightarrow> real option) \<Rightarrow> nat \<Rightarrow> nat list \<Rightarrow> nat" where
  "min_vertex d u [] = u"
| "min_vertex d u (v # vs) = min_vertex d (if closer (d v) (d u) then v else u) vs"

definition dijkstra_visit :: "graph \<Rightarrow> pmap \<Rightarrow> nat \<Rightarrow> nat list \<Rightarrow> real search \<Rightarrow> real search" where
  "dijkstra_visit g w u q st =
     (let st' = st\<lparr>queue := q, ordered_vertices := u # ordered_vertices st\<rparr>
      in case distance_map st u of
           None \<Rightarrow> st'
         | Some du \<Rightarrow> fold (dijkstra_relax w du u) (out_edges g u) st')"

fun dijkstra_loop :: "nat \<Rightarrow> graph \<Rightarrow> pmap \<Rightarrow> real search \<Rightarrow> real search option" where
  "dijkstra_loop 0 g w st = (if queue st = [] then Some st else None)"
| "dijkstra_loop (Suc k) g w st =
     (case queue st of
        [] \<Rightarrow> Some st
      | u0 # q \<Rightarrow>
          (let u = min_vertex (distance_map st) u0 q
           in dijkstra_loop k g w (dijkstra_visit g w u (remove1 u (u0 # q)) st)))"

definition dijkstra_from :: "graph \<Rightarrow> pmap \<Rightarrow> nat \<Rightarrow> real search option" where
  "dijkstra_from g w s = dijkstra_loop (num_vertices g) g w (init_search s 0)"

text \<open>
  Modelled from the spec: the dependency back-propagation of section 4.2 (inside the library
  routine, not among the sources). The accumulators are the transient dependency map and the
  two betweenness maps; \<open>zero_division\<close> records whether a ratio was ever taken with a zero
  \<open>sigma\<close> as its divisor.
\<close>

record accumulators =
  dependency_map :: pmap
  vertex_acc :: pmap
  edge_acc :: pmap
  zero_division :: bool

definition back_edge :: "(nat \<Rightarrow> size_t) \<Rightarrow> nat \<Rightarrow> nat \<times> nat \<Rightarrow> accumulators \<Rightarrow> accumulators" where
  "back_edge sigma w ev a =
     (case ev of (e, v) \<Rightarrow>
        let ratio = real (unat (sigma v)) / real (unat (sigma w));
            c = ratio * (1 + dependency_map a w)
        in a\<lparr>dependency_map := (dependency_map a)(v := dependency_map a v + c),
              edge_acc := (edge_acc a)(e := edge_acc a e + c),
              zero_division := (zero_division a \<or> sigma w = 0)\<rparr>)"

definition back_vertex :: "'d search \<Rightarrow> nat \<Rightarrow> nat \<Rightarrow> accumulators \<Rightarrow> accumulators" where
  "back_vertex st s w a =
     (if path_count_map st w = 0 then a
      else let a1 = fold (back_edge (path_count_map st) w) (incoming_map st w) a
           in if w \<noteq> s
              then a1\<lparr>vertex_acc := (vertex_acc a1)(w := vertex_acc a1 w + dependency_map a1 w)\<rparr>
              else a1)"

text \<open>
  The pass sees every vertex once: the visited ones farthest first (the reverse of the order
  of visit), and the vertices never visited, which it skips.
\<close>

definition pass_order :: "graph \<Rightarrow> 'd search \<Rightarrow> nat list" where
  "pass_order g st =
     filter (\<lambda>v. distance_map st v = None) (vertices g) @ ordered_vertices st"

definition back_propagation :: "graph \<Rightarrow> 'd search \<Rightarrow> nat \<Rightarrow> pmap \<times> pmap \<Rightarrow> pmap \<times> pmap" where
  "back_propagation g st s acc =
     (let a = fold (back_vertex st s) (pass_order g st)
                \<lparr>dependency_map = (\<lambda>v. 0), vertex_acc = fst acc, edge_acc = snd acc,
                 zero_division = False\<rparr>
      in (vertex_acc a, edge_acc a))"

text \<open>
  Modelled from the spec: the aggregator of section 4.3, the sum of the contributions of all
  sources into the maps the caller supplies.
\<close>

fun aggregate ::
  "(nat \<Rightarrow> 'd search option) \<Rightarrow> graph \<Rightarrow> nat list \<Rightarrow> pmap \<times> pmap \<Rightarrow> (pmap \<times> pmap) option" where
  "aggregate search g [] acc = Some acc"
| "aggregate search g (s # ss) acc =
     (case search s of
        None \<Rightarrow> None
      | Some st \<Rightarrow> aggregate search g ss (back_propagation g st s acc))"

text \<open>
  Modelled from the spec: the two library routines, the data flow of section 2 with the
  parts above: per source the accumulator and the back-propagation, summed over all vertices
  as sources.
\<close>

definition brandes_betweenness_centrality :: brandes_routine where
  "brandes_betweenness_centrality g vertex_betweenness edge_betweenness =
     aggregate (bfs_from g) g (vertices g) (vertex_betweenness, edge_betweenness)"

definition weighted_brandes_betweenness_centrality :: weighted_brandes_routine where
  "weighted_brandes_betweenness_centrality g vertex_betweenness edge_betweenness w =
     aggregate (dijkstra_from g w) g (vertices g) (vertex_betweenness, edge_betweenness)"

text \<open>
  Modelled from the spec: the central point dominance of section 4.5 (a library routine, not
  among the sources): with \<open>c*\<close> the largest vertex betweenness and \<open>n\<close> the vertex count,
  the sum of \<open>c* - c v\<close> over the vertices divided by \<open>n - 1\<close>, and 0 when \<open>n \<le> 1\<close>.
\<close>

definition max_centrality :: "pmap \<Rightarrow> nat list \<Rightarrow> real" where
  "max_centrality c vs = (case vs of [] \<Rightarrow> 0 | v # rest \<Rightarrow> fold (\<lambda>x m. max m (c x)) rest (c v))"

definition central_point_dominance :: "graph \<Rightarrow> pmap \<Rightarrow> real" where
  "central_point_dominance g c =
     (let n = length (vertices g)
      in if n \<le> 1 then 0
         else (\<Sum>v\<leftarrow>vertices g. max_centrality c (vertices g) - c v) / real (n - 1))"

section \<open>Predicates of the proofs\<close>

text \<open>
  The invariant of both traversals: the vertices taken from the queue and those waiting in
  it are pairwise distinct, they are exactly the vertices with a distance, and all lie below
  the vertex count.
\<close>

definition search_inv :: "nat \<Rightarrow> 'd search \<Rightarrow> bool" where
  "search_inv N st \<longleftrightarrow>
     distinct (ordered_vertices st @ queue st) \<and>
     set (ordered_vertices st @ queue st) = dom (distance_map st) \<and>
     dom (distance_map st) \<subseteq> {..<N}"

text \<open>A vertex without a distance has no counted path.\<close>

definition unvisited_inv :: "'d search \<Rightarrow> bool" where
  "unvisited_inv st \<longleftrightarrow> (\<forall>v. distance_map st v = None \<longrightarrow> path_count_map st v = 0)"

text \<open>No accumulator holds a negative value.\<close>

definition nonneg_acc :: "accumulators \<Rightarrow> bool" where
  "nonneg_acc a \<longleftrightarrow>
     (\<forall>v. 0 \<le> dependency_map a v) \<and> (\<forall>v. 0 \<le> vertex_acc a v) \<and> (\<forall>e. 0 \<le> edge_acc a e)"

definition nonneg_maps :: "pmap \<times> pmap \<Rightarrow> bool" where
  "nonneg_maps acc \<longleftrightarrow> (\<forall>k. 0 \<le> fst acc k) \<and> (\<forall>k. 0 \<le> snd acc k)"

text \<open>
  The state of the unweighted traversal read as a state of the weighted one, and the
  invariants of the plain queue: the queue holds visited vertices in the order of their
  distances, none nearer than \<open>du\<close>, and no vertex is farther than \<open>du + 1\<close>, where \<open>du\<close> is
  the distance of the vertex being expanded (or of the head of the queue).
\<close>

definition to_real :: "nat search \<Rightarrow> real search" where
  "to_real st =
     \<lparr>distance_map = (\<lambda>v. map_option real (distance_map st v)),
      path_count_map = path_count_map st, incoming_map = incoming_map st,
      queue = queue st, ordered_vertices = ordered_vertices st\<rparr>"





section \<open>Example graphs\<close>

text \<open>The undirected star with centre 0 and the four leaves 1 to 4.\<close>

definition star4 :: graph where
  "star4 = \<lparr>num_vertices = 5, vertex_ok = (\<lambda>v. True),
            edge_list = [(0, 1), (0, 2), (0, 3), (0, 4)], undirected = True\<rparr>"

definition star4_interface :: GraphInterface where
  "star4_interface = \<lparr>view = star4, GetNumberOfVertices = 5\<rparr>"

definition zero_map :: pmap where
  "zero_map = (\<lambda>k. 0)"

definition unit_map :: pmap where
  "unit_map = (\<lambda>k. 1)"

definition zero_accumulators :: accumulators where
  "zero_accumulators =
     \<lparr>dependency_map = zero_map, vertex_acc = zero_map, edge_acc = zero_map,
      zero_division = False\<rparr>"

text \<open>The undirected graph of two vertices and the edge between them.\<close>

definition pair_graph :: graph where
  "pair_graph = \<lparr>num_vertices = 2, vertex_ok = (\<lambda>v. True), edge_list = [(0, 1)],
                 undirected = True\<rparr>"

text \<open>An undirected graph of three vertices, the third one isolated.\<close>

definition split_graph :: graph where
  "split_graph = \<lparr>num_vertices = 3, vertex_ok = (\<lambda>v. True), edge_list = [(0, 1)],
                  undirected = True\<rparr>"



text \<open>A directed graph of \<open>2 ^ 31\<close> vertices and no edge.\<close>

definition huge_graph :: graph where
  "huge_graph = \<lparr>num_vertices = 2147483648, vertex_ok = (\<lambda>v. True), edge_list = [],
                 undirected = False\<rparr>"

section \<open>Properties of the normalization pass\<close>

lemma fold_scale_vertex:
  "distinct xs \<Longrightarrow>
   fold (scale_vertex g f) xs vb v =
     (if v \<in> set xs \<and> vertex_ok g v then f * vb v else vb v)"
  by (induction xs arbitrary: vb) (auto simp: scale_vertex_def vertex_def)

lemma fold_scale_edge:
  "distinct xs \<Longrightarrow>
   fold (scale_edge f) xs eb e = (if e \<in> set xs then f * eb e else eb e)"
  by (induction xs arbitrary: eb) (auto simp: scale_edge_def)

lemma loop_bound_small:
  assumes "num_vertices g < 2 ^ 31"
  shows "loop_bound g = int (num_vertices g)"
  using assms by (simp add: loop_bound_def signed_of_nat signed_take_bit_int_eq_self)

text \<open>An odd word is no zero divisor modulo \<open>2 ^ 64\<close>.\<close>

lemma odd_mult_zero:
  fixes a b :: size_t
  assumes "odd a" "a * b = 0"
  shows "b = 0"
proof -
  have "unat (a * b) = 0" using assms(2) by simp
  then have "(unat a * unat b) mod 2 ^ 64 = 0"
    by (simp add: unat_word_ariths)
  then have d: "(2::nat) ^ 64 dvd unat a * unat b" by presburger
  have "odd (unat a)" using assms(1) by (simp flip: bit_0 add: bit_unsigned_iff)
  then have "coprime ((2::nat) ^ 64) (unat a)"
    by (simp only: coprime_power_left_iff coprime_left_2_iff_odd simp_thms)
  with d have "(2::nat) ^ 64 dvd unat b"
    by (simp add: coprime_dvd_mult_right_iff)
  moreover have "unat b < 2 ^ 64" using unsigned_less [of b] by simp
  ultimately have "unat b = 0" by (meson dvd_imp_le not_less neq0_conv)
  then show ?thesis by (simp add: unat_eq_0)
qed

lemma consecutive_nonzero:
  fixes x :: size_t
  assumes "x \<noteq> 0" "x \<noteq> 1"
  shows "x * (x - 1) \<noteq> 0"
proof
  assume z: "x * (x - 1) = 0"
  show False
  proof (cases "odd x")
    case True
    then have "x - 1 = 0" using z by (rule odd_mult_zero)
    then show False using assms(2) by simp
  next
    case False
    then have "odd (x - 1)" by simp
    moreover have "(x - 1) * x = 0" using z by (simp add: mult.commute)
    ultimately have "x = 0" by (rule odd_mult_zero)
    then show False using assms(1) by simp
  qed
qed

lemma vdivisor_nonzero:
  fixes n :: size_t
  assumes "2 < n"
  shows "(n - 1) * (n - 2) \<noteq> 0"
proof -
  have "n - 1 \<noteq> 0" "n - 1 \<noteq> 1" using assms by auto
  then have "(n - 1) * (n - 1 - 1) \<noteq> 0" by (rule consecutive_nonzero)
  then show ?thesis by simp
qed

lemma edivisor_nonzero:
  fixes n :: size_t
  assumes "1 < n"
  shows "n * (n - 1) \<noteq> 0"
proof -
  have "n \<noteq> 0" "n \<noteq> 1" using assms by auto
  then show ?thesis by (rule consecutive_nonzero)
qed

lemma vfactor_of_pos: "0 < vfactor_of n"
proof (cases "2 < n")
  case True
  then have "0 < unat ((n - 1) * (n - 2))"
    using vdivisor_nonzero [of n] by (simp add: unat_gt_0)
  then have "0 < real (unat ((n - 1) * (n - 2)))"
    by (simp only: of_nat_0_less_iff)
  with True show ?thesis
    by (simp only: vfactor_of_def if_True zero_less_divide_1_iff)
next
  case False
  then show ?thesis by (simp add: vfactor_of_def)
qed

lemma efactor_of_pos: "0 < efactor_of n"
proof (cases "1 < n")
  case True
  then have "0 < unat (n * (n - 1))"
    using edivisor_nonzero [of n] by (simp add: unat_gt_0)
  then have "0 < real (unat (n * (n - 1)))"
    by (simp only: of_nat_0_less_iff)
  with True show ?thesis
    by (simp only: efactor_of_def if_True zero_less_divide_1_iff)
next
  case False
  then show ?thesis by (simp add: efactor_of_def)
qed

lemma vfactor_pos: "0 < vfactor g n"
  using vfactor_of_pos [of n] by (simp add: vfactor_def)

lemma efactor_pos: "0 < efactor g n"
  using efactor_of_pos [of n] by (simp add: efactor_def)

text \<open>Below \<open>2 ^ 32\<close> the \<^verbatim>\<open>size_t\<close> products are the exact ones.\<close>

lemma vdivisor_exact:
  fixes n :: size_t
  assumes a: "unat n \<le> 2 ^ 32" and b: "2 < n"
  shows "unat ((n - 1) * (n - 2)) = (unat n - 1) * (unat n - 2)"
proof -
  have u1: "unat (n - 1) = unat n - 1" using b by (intro unat_minus_one) auto
  have "2 \<le> n" using b by simp
  then have u2: "unat (n - 2) = unat n - 2" by (simp add: unat_sub)
  have "(unat n - 1) * (unat n - 2) \<le> 4294967295 * 4294967296"
    using a by (intro mult_le_mono) auto
  then have "unat (n - 1) * unat (n - 2) < 2 ^ LENGTH(64)"
    using u1 u2 by simp
  then show ?thesis using u1 u2 by (simp add: unat_mult_lem [THEN iffD1])
qed

lemma edivisor_exact:
  fixes n :: size_t
  assumes a: "unat n \<le> 2 ^ 32" and b: "1 < n"
  shows "unat (n * (n - 1)) = unat n * (unat n - 1)"
proof -
  have u1: "unat (n - 1) = unat n - 1" using b by (intro unat_minus_one) auto
  have "unat n * (unat n - 1) \<le> 4294967296 * 4294967295"
    using a by (intro mult_le_mono) auto
  then have "unat n * unat (n - 1) < 2 ^ LENGTH(64)"
    using u1 by simp
  then show ?thesis using u1 by (simp add: unat_mult_lem [THEN iffD1])
qed

lemma vfactor_of_exact:
  assumes "unat n \<le> 2 ^ 32"
  shows "vfactor_of n = (if 2 < unat n then 1 / (real (unat n - 1) * real (unat n - 2)) else 1)"
proof (cases "2 < n")
  case True
  then have "2 < unat n" by (simp add: word_less_nat_alt)
  moreover have "real (unat ((n - 1) * (n - 2))) = real (unat n - 1) * real (unat n - 2)"
    by (simp only: vdivisor_exact [OF assms True] of_nat_mult)
  ultimately show ?thesis using True by (simp only: vfactor_of_def if_True)
next
  case False
  then have "\<not> 2 < unat n" by (simp add: word_less_nat_alt)
  with False show ?thesis by (simp only: vfactor_of_def if_False)
qed

lemma efactor_of_exact:
  assumes "unat n \<le> 2 ^ 32"
  shows "efactor_of n = (if 1 < unat n then 1 / (real (unat n) * real (unat n - 1)) else 1)"
proof (cases "1 < n")
  case True
  then have "1 < unat n" by (simp add: word_less_nat_alt)
  moreover have "real (unat (n * (n - 1))) = real (unat n) * real (unat n - 1)"
    by (simp only: edivisor_exact [OF assms True] of_nat_mult)
  ultimately show ?thesis using True by (simp only: efactor_of_def if_True)
next
  case False
  then have "\<not> 1 < unat n" by (simp add: word_less_nat_alt)
  with False show ?thesis by (simp only: efactor_of_def if_False)
qed

lemma normalize_vertex_value:
  assumes "num_vertices g < 2 ^ 31" "v < num_vertices g" "vertex_ok g v"
  shows "snd (normalize_betweenness g eb vb n) v = vfactor g n * vb v"
proof -
  have "nat (loop_bound g) = num_vertices g"
    using loop_bound_small [OF assms(1)] by simp
  then show ?thesis
    using assms(2,3) by (simp add: normalize_betweenness_def fold_scale_vertex)
qed

lemma normalize_edge_value:
  assumes "e < length (edge_list g)"
  shows "fst (normalize_betweenness g eb vb n) e = efactor g n * eb e"
  using assms by (simp add: normalize_betweenness_def fold_scale_edge edges_def)

text \<open>
  C1, as amended. For a graph of fewer than \<open>2 ^ 31\<close> vertices and \<open>n \<le> 2 ^ 32\<close> (so that
  neither the \<^verbatim>\<open>int\<close> loop bound nor the \<^verbatim>\<open>size_t\<close> products wrap) the normalization pass
  multiplies the betweenness of every vertex by \<open>vfactor\<close> and of every edge by \<open>efactor\<close>,
  where \<open>vfactor\<close> is \<open>1 / ((n - 1) * (n - 2))\<close> for \<open>n > 2\<close> and 1 otherwise, \<open>efactor\<close> is
  \<open>1 / (n * (n - 1))\<close> for \<open>n > 1\<close> and 1 otherwise, and both are doubled for an undirected
  graph. For \<open>n \<le> 2\<close> the vertex factor before the doubling is 1 (the values are multiplied
  by 1 in a directed and by 2 in an undirected graph), and for no \<open>n\<close> at all is a divisor
  zero.
\<close>

theorem normalize_betweenness_scales:
  assumes "num_vertices g < 2 ^ 31" and "unat n \<le> 2 ^ 32"
  shows "(\<forall>v < num_vertices g. vertex_ok g v \<longrightarrow>
            snd (normalize_betweenness g eb vb n) v = vfactor g n * vb v)
       \<and> (\<forall>e < length (edge_list g).
            fst (normalize_betweenness g eb vb n) e = efactor g n * eb e)
       \<and> vfactor g n = (if 2 < unat n then 1 / (real (unat n - 1) * real (unat n - 2)) else 1)
                        * (if undirected g then 2 else 1)
       \<and> efactor g n = (if 1 < unat n then 1 / (real (unat n) * real (unat n - 1)) else 1)
                        * (if undirected g then 2 else 1)
       \<and> (unat n \<le> 2 \<longrightarrow> vfactor_of n = 1 \<and> vfactor g n = (if undirected g then 2 else 1))
       \<and> (\<forall>m :: size_t. (2 < m \<longrightarrow> (m - 1) * (m - 2) \<noteq> 0) \<and> (1 < m \<longrightarrow> m * (m - 1) \<noteq> 0))"
proof (intro conjI allI impI)
  fix v assume "v < num_vertices g" "vertex_ok g v"
  then show "snd (normalize_betweenness g eb vb n) v = vfactor g n * vb v"
    using assms(1) by (simp add: normalize_vertex_value)
next
  fix e assume "e < length (edge_list g)"
  then show "fst (normalize_betweenness g eb vb n) e = efactor g n * eb e"
    by (rule normalize_edge_value)
next
  show "vfactor g n = (if 2 < unat n then 1 / (real (unat n - 1) * real (unat n - 2)) else 1)
                        * (if undirected g then 2 else 1)"
    by (simp only: vfactor_def vfactor_of_exact [OF assms(2)] split: if_split) simp
next
  show "efactor g n = (if 1 < unat n then 1 / (real (unat n) * real (unat n - 1)) else 1)
                        * (if undirected g then 2 else 1)"
    by (simp only: efactor_def efactor_of_exact [OF assms(2)] split: if_split) simp
next
  assume "unat n \<le> 2"
  then have "\<not> 2 < n" by (simp add: word_less_nat_alt)
  then show "vfactor_of n = 1" by (simp only: vfactor_of_def if_False)
  then show "vfactor g n = (if undirected g then 2 else 1)" by (simp add: vfactor_def)
next
  fix m :: size_t assume "2 < m"
  then show "(m - 1) * (m - 2) \<noteq> 0" by (rule vdivisor_nonzero)
next
  fix m :: size_t assume "1 < m"
  then show "m * (m - 1) \<noteq> 0" by (rule edivisor_nonzero)
qed

theorem normalize_betweenness_scales_witness:
  "num_vertices star4 < 2 ^ 31 \<and> unat (5 :: size_t) \<le> 2 ^ 32
   \<and> (0::nat) < num_vertices star4 \<and> vertex_ok star4 0
   \<and> snd (normalize_betweenness star4 unit_map unit_map 5) 0 = vfactor star4 5 * unit_map 0
   \<and> (0::nat) < length (edge_list star4)
   \<and> fst (normalize_betweenness star4 unit_map unit_map 5) 0 = efactor star4 5 * unit_map 0
   \<and> vfactor star4 5 = 1 / 6 \<and> efactor star4 5 = 1 / 10
   \<and> unat (2 :: size_t) \<le> 2 \<and> vfactor_of 2 = 1 \<and> vfactor star4 2 = 2
   \<and> (2 :: size_t) < 5 \<and> ((5 :: size_t) - 1) * (5 - 2) \<noteq> 0"
  using normalize_betweenness_scales [of star4 5 unit_map unit_map]
    normalize_betweenness_scales [of star4 2 unit_map unit_map]
  by (simp add: star4_def)

text \<open>
  The claim as stated fails in three places. For the undirected graph of two vertices
  (\<open>n = 2\<close>) the vertex values are multiplied by 2, the doubled 1, not by 1. With \<open>2 ^ 31\<close>
  vertices the loop bound \<^verbatim>\<open>int N\<close> is negative, the vertex loop does not run and the
  betweenness of vertex 0 keeps its value 1 although the factor is not 1. With
  \<open>n = 2 ^ 32 + 2\<close> the product \<open>(n - 1) * (n - 2)\<close> wraps to \<open>2 ^ 32\<close>.
\<close>

theorem normalize_betweenness_wraps:
  "snd (normalize_betweenness pair_graph unit_map unit_map 2) 0 = 2 * unit_map 0
   \<and> snd (normalize_betweenness huge_graph unit_map unit_map 2147483648) 0
         \<noteq> vfactor huge_graph 2147483648 * unit_map 0
   \<and> vfactor_of 4294967298 \<noteq> 1 / (4294967297 * 4294967296)"
  by (simp add: normalize_betweenness_def loop_bound_def huge_graph_def unit_map_def
      vfactor_def vfactor_of_def pair_graph_def fold_scale_vertex)

section \<open>Properties of the entry points\<close>

lemma belongs_floating:
  "belongs (map (Pair k) floating_types) a \<longleftrightarrow>
     (\<exists>t m. a = AnyMap k t m \<and> (t = Double \<or> t = LongDouble))"
  by (cases a) (auto simp: belongs_def floating_types_def)

text \<open>
  C2. For every call of \<^verbatim>\<open>betweenness\<close>: when the edge or the vertex betweenness argument
  does not hold a map of floating-point values, a \<^verbatim>\<open>GraphException\<close> is raised and both
  arguments are as they were; this holds whatever the library routines are (also for routines
  that never return), so nothing has been computed. When both hold floating-point maps, no
  \<^verbatim>\<open>GraphException\<close> is raised.
\<close>

theorem betweenness_type_check:
  "(\<not> belongs edge_floating_properties eb \<or> \<not> belongs vertex_floating_properties vb \<longrightarrow>
      (\<exists>msg. betweenness ubr wbr g weight eb vb nf = Some (Some (GraphException msg), eb, vb)))
   \<and> (belongs edge_floating_properties eb \<and> belongs vertex_floating_properties vb \<longrightarrow>
      (\<forall>msg out. betweenness ubr wbr g weight eb vb nf \<noteq> Some (Some (GraphException msg), out)))
   \<and> (belongs edge_floating_properties eb \<longleftrightarrow>
        (\<exists>t m. eb = AnyMap edge_key t m \<and> (t = Double \<or> t = LongDouble)))
   \<and> (belongs vertex_floating_properties vb \<longleftrightarrow>
        (\<exists>t m. vb = AnyMap vertex_key t m \<and> (t = Double \<or> t = LongDouble)))"
proof (intro conjI impI)
  assume "\<not> belongs edge_floating_properties eb \<or> \<not> belongs vertex_floating_properties vb"
  then show "\<exists>msg. betweenness ubr wbr g weight eb vb nf = Some (Some (GraphException msg), eb, vb)"
    by (auto simp: betweenness_def)
next
  assume a: "belongs edge_floating_properties eb \<and> belongs vertex_floating_properties vb"
  then obtain t1 m1 t2 m2
    where eb: "eb = AnyMap edge_key t1 m1" and vb: "vb = AnyMap vertex_key t2 m2"
    by (auto simp: edge_floating_properties_def vertex_floating_properties_def belongs_floating)
  show "\<forall>msg out. betweenness ubr wbr g weight eb vb nf \<noteq> Some (Some (GraphException msg), out)"
    using a unfolding eb vb
    by (auto simp: betweenness_def run_action_def belongs_def get_betweenness_def
        get_weighted_betweenness_def any_cast_def
        split: option.splits sum.splits any.splits if_splits prod.splits)
next
  show "belongs edge_floating_properties eb \<longleftrightarrow>
        (\<exists>t m. eb = AnyMap edge_key t m \<and> (t = Double \<or> t = LongDouble))"
    by (simp only: edge_floating_properties_def belongs_floating)
next
  show "belongs vertex_floating_properties vb \<longleftrightarrow>
        (\<exists>t m. vb = AnyMap vertex_key t m \<and> (t = Double \<or> t = LongDouble))"
    by (simp only: vertex_floating_properties_def belongs_floating)
qed

theorem betweenness_type_check_witness:
  "\<not> belongs edge_floating_properties (AnyMap edge_key Int32 zero_map)
   \<and> betweenness (\<lambda>g vb eb. None) (\<lambda>g vb eb w. None) star4_interface AnyEmpty
        (AnyMap edge_key Int32 zero_map) (AnyMap vertex_key Double zero_map) True
     = Some (Some (GraphException ''edge property must be of floating point value type''),
             AnyMap edge_key Int32 zero_map, AnyMap vertex_key Double zero_map)
   \<and> belongs edge_floating_properties (AnyMap edge_key Double zero_map)
   \<and> belongs vertex_floating_properties (AnyMap vertex_key LongDouble zero_map)
   \<and> betweenness (\<lambda>g vb eb. Some (vb, eb)) (\<lambda>g vb eb w. None) star4_interface AnyEmpty
        (AnyMap edge_key Double zero_map) (AnyMap vertex_key LongDouble zero_map) False
     = Some (None, AnyMap edge_key Double zero_map, AnyMap vertex_key LongDouble zero_map)"
  using betweenness_type_check [of "AnyMap edge_key Int32 zero_map"
      "AnyMap vertex_key Double zero_map" "\<lambda>g vb eb. None" "\<lambda>g vb eb w. None"
      star4_interface AnyEmpty True]
    betweenness_type_check [of "AnyMap edge_key Double zero_map"
      "AnyMap vertex_key LongDouble zero_map" "\<lambda>g vb eb. Some (vb, eb)" "\<lambda>g vb eb w. None"
      star4_interface AnyEmpty False]
  by (simp add: betweenness_def belongs_def edge_floating_properties_def
      vertex_floating_properties_def floating_types_def run_action_def get_betweenness_def
      any_empty_def)

text \<open>
  C9. In weighted mode (the weight argument is not empty, both outputs hold floating-point
  maps) the weight argument must hold exactly the type of the edge betweenness map: holding
  anything else, also a floating-point edge map of the other value type, the call ends in
  \<^verbatim>\<open>bad_any_cast\<close> with both outputs untouched, whatever the library routine is; holding that
  type, the routine runs with these weights.
\<close>

theorem weighted_cast:
  assumes "te \<in> set floating_types" "tv \<in> set floating_types" "\<not> any_empty weight"
  shows "((\<forall>w. weight \<noteq> AnyMap edge_key te w) \<longrightarrow>
            betweenness ubr wbr g weight (AnyMap edge_key te eb) (AnyMap vertex_key tv vb) nf
              = Some (Some bad_any_cast, AnyMap edge_key te eb, AnyMap vertex_key tv vb))
       \<and> (\<forall>w. weight = AnyMap edge_key te w \<longrightarrow>
            betweenness ubr wbr g weight (AnyMap edge_key te eb) (AnyMap vertex_key tv vb) nf
              = (case wbr (view g) vb eb w of
                   None \<Rightarrow> None
                 | Some (vb', eb') \<Rightarrow>
                     (case (if nf then normalize_betweenness (view g) eb' vb' (GetNumberOfVertices g)
                            else (eb', vb')) of
                        (eb'', vb'') \<Rightarrow>
                          Some (None, AnyMap edge_key te eb'', AnyMap vertex_key tv vb''))))"
  using assms
  by (auto simp: betweenness_def run_action_def belongs_def get_weighted_betweenness_def
      any_cast_def edge_floating_properties_def vertex_floating_properties_def
      split: option.splits sum.splits any.splits if_splits prod.splits)

theorem weighted_cast_witness:
  "Double \<in> set floating_types \<and> LongDouble \<in> set floating_types
   \<and> \<not> any_empty (AnyMap edge_key LongDouble unit_map)
   \<and> betweenness (\<lambda>g vb eb. None) (\<lambda>g vb eb w. Some (vb, w)) star4_interface
        (AnyMap edge_key LongDouble unit_map)
        (AnyMap edge_key Double zero_map) (AnyMap vertex_key Double zero_map) False
     = Some (Some bad_any_cast, AnyMap edge_key Double zero_map, AnyMap vertex_key Double zero_map)
   \<and> betweenness (\<lambda>g vb eb. None) (\<lambda>g vb eb w. Some (vb, w)) star4_interface
        (AnyMap edge_key Double unit_map)
        (AnyMap edge_key Double zero_map) (AnyMap vertex_key Double zero_map) False
     = Some (None, AnyMap edge_key Double unit_map, AnyMap vertex_key Double zero_map)"
  using weighted_cast [of Double Double "AnyMap edge_key LongDouble unit_map" "\<lambda>g vb eb. None"
      "\<lambda>g vb eb w. Some (vb, w)" star4_interface zero_map zero_map False]
    weighted_cast [of Double Double "AnyMap edge_key Double unit_map" "\<lambda>g vb eb. None"
      "\<lambda>g vb eb w. Some (vb, w)" star4_interface zero_map zero_map False]
  by (simp add: floating_types_def any_empty_def)

text \<open>
  C10. \<^verbatim>\<open>central_point\<close> checks no floating-point type: for a vertex map of any scalar value
  type, the integer ones included, it raises nothing and returns what the dominance routine
  computes, which the functor wrote to \<^verbatim>\<open>c\<close>; \<^verbatim>\<open>betweenness\<close> refuses the same vertex map
  when its type is not a floating one. For an argument outside the scalar vertex maps no
  instantiation runs and \<^verbatim>\<open>c\<close> keeps its initial 0.
\<close>

theorem central_point_scalar:
  assumes "t \<in> set scalar_types"
  shows "central_point cpd g (AnyMap vertex_key t c)
           = (None, cpd (view g) c, g, AnyMap vertex_key t c)
       \<and> (\<not> belongs vertex_scalar_properties a \<longrightarrow> fst (snd (central_point cpd g a)) = 0)
       \<and> (t \<notin> set floating_types \<longrightarrow>
            betweenness ubr wbr g weight (AnyMap edge_key Double eb) (AnyMap vertex_key t c) nf
              = Some (Some (GraphException ''vertex property must be of floating point value type''),
                      AnyMap edge_key Double eb, AnyMap vertex_key t c))"
  using assms
  by (auto simp: central_point_def vertex_scalar_properties_def get_central_point_dominance_def
      betweenness_def belongs_def edge_floating_properties_def vertex_floating_properties_def
      floating_types_def split: any.splits)

theorem central_point_scalar_witness:
  "Int32 \<in> set scalar_types \<and> Int32 \<notin> set floating_types
   \<and> central_point (\<lambda>g c. c 0 + 2) star4_interface (AnyMap vertex_key Int32 unit_map)
       = (None, 3, star4_interface, AnyMap vertex_key Int32 unit_map)
   \<and> \<not> belongs vertex_scalar_properties (AnyMap vertex_key String unit_map)
   \<and> fst (snd (central_point (\<lambda>g c. c 0 + 2) star4_interface
                  (AnyMap vertex_key String unit_map))) = 0
   \<and> betweenness (\<lambda>g vb eb. None) (\<lambda>g vb eb w. None) star4_interface AnyEmpty
        (AnyMap edge_key Double zero_map) (AnyMap vertex_key Int32 unit_map) False
       = Some (Some (GraphException ''vertex property must be of floating point value type''),
               AnyMap edge_key Double zero_map, AnyMap vertex_key Int32 unit_map)"
  using central_point_scalar [where t = Int32 and a = "AnyMap vertex_key String unit_map"
      and cpd = "\<lambda>g c. c 0 + 2" and g = star4_interface and c = unit_map
      and ubr = "\<lambda>g vb eb. None" and wbr = "\<lambda>g vb eb w. None" and weight = AnyEmpty
      and eb = zero_map and nf = False]
  by (simp add: scalar_types_def floating_types_def unit_map_def belongs_def
      vertex_scalar_properties_def)

section \<open>Properties of the central point dominance\<close>

lemma max_centrality_Max:
  assumes "vs \<noteq> []"
  shows "max_centrality c vs = Max (c ` set vs)"
proof -
  obtain v rest where vs: "vs = v # rest" using assms by (cases vs) auto
  have "(\<lambda>x m. max m (c x)) = max \<circ> c" by (auto simp: fun_eq_iff max.commute)
  then have "fold (\<lambda>x m. max m (c x)) rest (c v) = fold max (map c rest) (c v)"
    by (simp add: fold_map)
  also have "\<dots> = Max (set (c v # map c rest))" by (simp only: Max.set_eq_fold)
  finally show ?thesis by (simp add: max_centrality_def vs)
qed

lemma vertices_star4: "vertices star4 = [0, 1, 2, 3, 4]"
  by code_simp

text \<open>
  C4. For a scalar vertex betweenness map \<open>c\<close>, \<^verbatim>\<open>central_point\<close> with the dominance routine
  of the specification returns the sum over the vertices \<open>v\<close> of \<open>c* - c v\<close> divided by
  \<open>n - 1\<close>, where \<open>c*\<close> is the largest value of \<open>c\<close> on the vertices and \<open>n\<close> their number,
  and returns 0 when \<open>n \<le> 1\<close>.
\<close>

theorem central_point_value:
  assumes "t \<in> set scalar_types"
  shows "fst (snd (central_point central_point_dominance g (AnyMap vertex_key t c)))
           = (let vs = vertices (view g); n = length vs
              in if n \<le> 1 then 0
                 else (\<Sum>v\<leftarrow>vs. Max (c ` set vs) - c v) / real (n - 1))"
proof -
  have "vertices (view g) \<noteq> []" if "\<not> length (vertices (view g)) \<le> 1"
    using that by auto
  then show ?thesis
    using assms
    by (auto simp: central_point_def vertex_scalar_properties_def
        get_central_point_dominance_def central_point_dominance_def Let_def max_centrality_Max)
qed

theorem central_point_value_witness:
  "Double \<in> set scalar_types
   \<and> fst (snd (central_point central_point_dominance star4_interface
                  (AnyMap vertex_key Double unit_map))) = 0"
  using central_point_value [of Double star4_interface unit_map]
  by (simp add: scalar_types_def star4_interface_def vertices_star4 unit_map_def)

section \<open>Properties of the library routines as specified\<close>

subsection \<open>Both traversals return\<close>

lemma out_edges_target:
  assumes "wf_graph g" "(e, v) \<in> set (out_edges g u)"
  shows "v < num_vertices g"
proof -
  from assms(2) obtain i a b where m: "(i, a, b) \<in> set (enumerate 0 (edge_list g))"
    and v: "v = a \<or> v = b"
    by (auto simp: out_edges_def split: if_splits)
  then have "i < length (edge_list g) \<and> edge_list g ! i = (a, b)"
    by (simp add: in_set_enumerate_eq)
  then have "(a, b) \<in> set (edge_list g)"
    using nth_mem [of i "edge_list g"] by simp
  with assms(1) have "a < num_vertices g \<and> b < num_vertices g"
    by (auto simp: wf_graph_def list_all_iff)
  with v show ?thesis by auto
qed

lemma add_path_fields [simp]:
  "distance_map (add_path u e v st) = distance_map st"
  "queue (add_path u e v st) = queue st"
  "ordered_vertices (add_path u e v st) = ordered_vertices st"
  by (simp_all add: add_path_def)

lemma add_path_inv: "search_inv N (add_path u e v st) = search_inv N st"
  by (simp add: search_inv_def)

lemma discover_inv:
  assumes "search_inv N st" "v < N" "distance_map st v = None"
  shows "search_inv N (st\<lparr>distance_map := (distance_map st)(v \<mapsto> d),
                           path_count_map := pc, queue := queue st @ [v]\<rparr>)"
proof -
  have "v \<notin> dom (distance_map st)" using assms(3) by auto
  then have "v \<notin> set (ordered_vertices st @ queue st)"
    using assms(1) by (auto simp: search_inv_def)
  then show ?thesis
    using assms(1,2) by (auto simp: search_inv_def)
qed

lemma bfs_relax_inv:
  assumes "search_inv N st" "snd ev < N"
  shows "search_inv N (bfs_relax du u ev st)"
proof -
  obtain e v where ev: "ev = (e, v)" by (cases ev)
  show ?thesis
  proof (cases "distance_map st v")
    case None
    then show ?thesis
      using discover_inv [OF assms(1) _ None] assms(2)
      by (simp add: bfs_relax_def ev Let_def add_path_inv)
  next
    case (Some dv)
    then show ?thesis
      using assms(1) by (simp add: bfs_relax_def ev Let_def add_path_inv)
  qed
qed

lemma fold_bfs_relax_inv:
  assumes "search_inv N st" "\<forall>ev \<in> set evs. snd ev < N"
  shows "search_inv N (fold (bfs_relax du u) evs st)"
  using assms by (induction evs arbitrary: st) (auto simp: bfs_relax_inv)

lemma bfs_visit_inv:
  assumes "wf_graph g" "search_inv (num_vertices g) st" "queue st = u # q"
  shows "search_inv (num_vertices g) (bfs_visit g u q st)"
proof -
  let ?st' = "st\<lparr>queue := q, ordered_vertices := u # ordered_vertices st\<rparr>"
  have i: "search_inv (num_vertices g) ?st'"
    using assms(2,3) by (auto simp: search_inv_def)
  have t: "\<forall>ev \<in> set (out_edges g u). snd ev < num_vertices g"
    using out_edges_target [OF assms(1)] by auto
  show ?thesis
    using i t by (auto simp: bfs_visit_def Let_def fold_bfs_relax_inv split: option.splits)
qed

lemma bfs_relax_ordered [simp]:
  "ordered_vertices (bfs_relax du u ev st) = ordered_vertices st"
  by (cases ev) (simp add: bfs_relax_def Let_def split: option.splits)

lemma fold_bfs_relax_ordered [simp]:
  "ordered_vertices (fold (bfs_relax du u) evs st) = ordered_vertices st"
  by (induction evs arbitrary: st) simp_all

lemma bfs_visit_ordered:
  "ordered_vertices (bfs_visit g u q st) = u # ordered_vertices st"
  by (simp add: bfs_visit_def Let_def split: option.splits)

lemma search_inv_full:
  assumes "search_inv N st" "N \<le> length (ordered_vertices st)"
  shows "queue st = []"
proof -
  have "set (ordered_vertices st @ queue st) \<subseteq> {..<N}"
    using assms(1) by (simp only: search_inv_def)
  then have "card (set (ordered_vertices st @ queue st)) \<le> N"
    using card_mono [of "{..<N}"] by fastforce
  moreover have "card (set (ordered_vertices st @ queue st))
      = length (ordered_vertices st) + length (queue st)"
    using assms(1) distinct_card [of "ordered_vertices st @ queue st"]
    by (simp add: search_inv_def)
  ultimately have "length (queue st) = 0" using assms(2) by linarith
  then show ?thesis by simp
qed

lemma bfs_loop_returns:
  assumes "wf_graph g" "search_inv (num_vertices g) st"
    "num_vertices g \<le> length (ordered_vertices st) + k"
  shows "\<exists>st'. bfs_loop k g st = Some st'"
  using assms(2,3)
proof (induction k arbitrary: st)
  case 0
  then show ?case using search_inv_full [of "num_vertices g" st] by simp
next
  case (Suc k)
  show ?case
  proof (cases "queue st")
    case Nil
    then show ?thesis by simp
  next
    case (Cons u q)
    have "search_inv (num_vertices g) (bfs_visit g u q st)"
      using assms(1) Suc.prems(1) Cons by (rule bfs_visit_inv)
    moreover have "num_vertices g \<le> length (ordered_vertices (bfs_visit g u q st)) + k"
      using Suc.prems(2) by (simp add: bfs_visit_ordered)
    ultimately show ?thesis using Suc.IH Cons by simp
  qed
qed

lemma init_search_inv: "s < N \<Longrightarrow> search_inv N (init_search s d0)"
  by (simp add: search_inv_def init_search_def)

lemma bfs_from_returns:
  assumes "wf_graph g" "s < num_vertices g"
  shows "\<exists>st. bfs_from g s = Some st"
proof -
  have "search_inv (num_vertices g) (init_search s (0::nat))"
    using assms(2) by (rule init_search_inv)
  moreover have "num_vertices g \<le> length (ordered_vertices (init_search s (0::nat))) + num_vertices g"
    by simp
  ultimately show ?thesis
    unfolding bfs_from_def using assms(1) by (intro bfs_loop_returns)
qed

lemma dijkstra_relax_inv:
  assumes "search_inv N st" "snd ev < N"
  shows "search_inv N (dijkstra_relax w du u ev st)"
proof -
  obtain e v where ev: "ev = (e, v)" by (cases ev)
  show ?thesis
  proof (cases "distance_map st v")
    case None
    then show ?thesis
      using discover_inv [OF assms(1) _ None] assms(2)
      by (simp add: dijkstra_relax_def ev Let_def add_path_inv)
  next
    case (Some dv)
    have "search_inv N (st\<lparr>distance_map := (distance_map st)(v \<mapsto> d),
                            path_count_map := pc, incoming_map := im\<rparr>)" for d pc im
      using assms(1) Some by (auto simp: search_inv_def)
    then show ?thesis
      using assms(1) Some by (simp add: dijkstra_relax_def ev Let_def add_path_inv)
  qed
qed

lemma fold_dijkstra_relax_inv:
  assumes "search_inv N st" "\<forall>ev \<in> set evs. snd ev < N"
  shows "search_inv N (fold (dijkstra_relax w du u) evs st)"
  using assms by (induction evs arbitrary: st) (auto simp: dijkstra_relax_inv)

lemma min_vertex_mem: "min_vertex d u vs \<in> set (u # vs)"
  by (induction vs arbitrary: u) (auto split: if_splits)

lemma dijkstra_visit_inv:
  assumes "wf_graph g" "search_inv (num_vertices g) st" "u \<in> set (queue st)"
  shows "search_inv (num_vertices g) (dijkstra_visit g w u (remove1 u (queue st)) st)"
proof -
  let ?st' = "st\<lparr>queue := remove1 u (queue st), ordered_vertices := u # ordered_vertices st\<rparr>"
  have d: "distinct (queue st)" "u \<notin> set (ordered_vertices st)"
    using assms(2,3) by (auto simp: search_inv_def)
  have "set (remove1 u (queue st)) = set (queue st) - {u}"
    using d(1) by (rule set_remove1_eq)
  then have i: "search_inv (num_vertices g) ?st'"
    using assms(2,3) d by (auto simp: search_inv_def)
  have t: "\<forall>ev \<in> set (out_edges g u). snd ev < num_vertices g"
    using out_edges_target [OF assms(1)] by auto
  show ?thesis
    using i t by (auto simp: dijkstra_visit_def Let_def fold_dijkstra_relax_inv split: option.splits)
qed

lemma dijkstra_relax_ordered [simp]:
  "ordered_vertices (dijkstra_relax w du u ev st) = ordered_vertices st"
  by (cases ev) (simp add: dijkstra_relax_def Let_def split: option.splits)

lemma fold_dijkstra_relax_ordered [simp]:
  "ordered_vertices (fold (dijkstra_relax w du u) evs st) = ordered_vertices st"
  by (induction evs arbitrary: st) simp_all

lemma dijkstra_visit_ordered:
  "ordered_vertices (dijkstra_visit g w u q st) = u # ordered_vertices st"
  by (simp add: dijkstra_visit_def Let_def split: option.splits)

lemma dijkstra_loop_returns:
  assumes "wf_graph g" "search_inv (num_vertices g) st"
    "num_vertices g \<le> length (ordered_vertices st) + k"
  shows "\<exists>st'. dijkstra_loop k g w st = Some st'"
  using assms(2,3)
proof (induction k arbitrary: st)
  case 0
  then show ?case using search_inv_full [of "num_vertices g" st] by simp
next
  case (Suc k)
  show ?case
  proof (cases "queue st")
    case Nil
    then show ?thesis by simp
  next
    case (Cons u0 q)
    define u where "u = min_vertex (distance_map st) u0 q"
    have m: "u \<in> set (queue st)" using min_vertex_mem [of "distance_map st" u0 q] Cons
      by (simp add: u_def)
    have "search_inv (num_vertices g) (dijkstra_visit g w u (remove1 u (queue st)) st)"
      using assms(1) Suc.prems(1) m by (rule dijkstra_visit_inv)
    moreover have "num_vertices g
        \<le> length (ordered_vertices (dijkstra_visit g w u (remove1 u (queue st)) st)) + k"
      using Suc.prems(2) by (simp add: dijkstra_visit_ordered)
    ultimately have "\<exists>st'. dijkstra_loop k g w (dijkstra_visit g w u (remove1 u (queue st)) st) = Some st'"
      by (rule Suc.IH)
    then show ?thesis using Cons by (simp add: Let_def u_def)
  qed
qed

lemma dijkstra_from_returns:
  assumes "wf_graph g" "s < num_vertices g"
  shows "\<exists>st. dijkstra_from g w s = Some st"
proof -
  have "search_inv (num_vertices g) (init_search s (0::real))"
    using assms(2) by (rule init_search_inv)
  moreover have "num_vertices g \<le> length (ordered_vertices (init_search s (0::real))) + num_vertices g"
    by simp
  ultimately show ?thesis
    unfolding dijkstra_from_def using assms(1) by (intro dijkstra_loop_returns)
qed

subsection \<open>The betweenness values are never negative\<close>

lemma back_edge_nonneg:
  assumes "nonneg_acc a"
  shows "nonneg_acc (back_edge sigma w ev a)"
proof -
  obtain e v where ev: "ev = (e, v)" by (cases ev)
  have "0 \<le> real (unat (sigma v)) / real (unat (sigma w)) * (1 + dependency_map a w)"
    using assms
    by (intro mult_nonneg_nonneg divide_nonneg_nonneg)
      (simp_all only: nonneg_acc_def of_nat_0_le_iff add_nonneg_nonneg zero_le_one)
  then show ?thesis
    using assms by (simp add: back_edge_def ev Let_def nonneg_acc_def del: of_nat_unat)
qed

lemma fold_back_edge_nonneg:
  "nonneg_acc a \<Longrightarrow> nonneg_acc (fold (back_edge sigma w) evs a)"
  by (induction evs arbitrary: a) (simp_all add: back_edge_nonneg)

lemma back_vertex_nonneg:
  assumes "nonneg_acc a"
  shows "nonneg_acc (back_vertex st s w a)"
proof -
  have "nonneg_acc (fold (back_edge (path_count_map st) w) (incoming_map st w) a)"
    using assms by (rule fold_back_edge_nonneg)
  then show ?thesis
    using assms by (auto simp: back_vertex_def Let_def nonneg_acc_def)
qed

lemma fold_back_vertex_nonneg:
  "nonneg_acc a \<Longrightarrow> nonneg_acc (fold (back_vertex st s) ws a)"
  by (induction ws arbitrary: a) (simp_all add: back_vertex_nonneg)

lemma back_propagation_nonneg:
  assumes "nonneg_maps acc"
  shows "nonneg_maps (back_propagation g st s acc)"
proof -
  have "nonneg_acc \<lparr>dependency_map = (\<lambda>v. 0), vertex_acc = fst acc, edge_acc = snd acc,
                 zero_division = False\<rparr>"
    using assms by (simp add: nonneg_acc_def nonneg_maps_def)
  then have "nonneg_acc (fold (back_vertex st s) (pass_order g st)
                \<lparr>dependency_map = (\<lambda>v. 0), vertex_acc = fst acc, edge_acc = snd acc,
                 zero_division = False\<rparr>)"
    by (rule fold_back_vertex_nonneg)
  then show ?thesis
    by (simp add: back_propagation_def Let_def nonneg_acc_def nonneg_maps_def)
qed

lemma aggregate_nonneg:
  assumes "\<forall>s \<in> set ss. \<exists>st. search s = Some st" "nonneg_maps acc"
  shows "\<exists>r. aggregate search g ss acc = Some r \<and> nonneg_maps r"
  using assms
proof (induction ss arbitrary: acc)
  case Nil
  then show ?case by simp
next
  case (Cons s ss)
  then obtain st where st: "search s = Some st" by auto
  have "nonneg_maps (back_propagation g st s acc)"
    using Cons.prems(2) by (rule back_propagation_nonneg)
  then have "\<exists>r. aggregate search g ss (back_propagation g st s acc) = Some r \<and> nonneg_maps r"
    using Cons.prems(1) by (intro Cons.IH) simp_all
  then show ?case using st by simp
qed

lemma vertices_bound: "s \<in> set (vertices g) \<Longrightarrow> s < num_vertices g"
  by (simp add: vertices_def)

lemma brandes_nonneg:
  assumes "wf_graph g" "nonneg_maps (vb, eb)"
  shows "\<exists>r. brandes_betweenness_centrality g vb eb = Some r \<and> nonneg_maps r"
proof -
  have "\<forall>s \<in> set (vertices g). \<exists>st. bfs_from g s = Some st"
    using bfs_from_returns [OF assms(1)] vertices_bound by blast
  then obtain r where "aggregate (bfs_from g) g (vertices g) (vb, eb) = Some r" "nonneg_maps r"
    using aggregate_nonneg [OF _ assms(2)] by blast
  then show ?thesis
    by (simp add: brandes_betweenness_centrality_def)
qed

lemma weighted_brandes_nonneg:
  assumes "wf_graph g" "nonneg_maps (vb, eb)"
  shows "\<exists>r. weighted_brandes_betweenness_centrality g vb eb w = Some r \<and> nonneg_maps r"
proof -
  have "\<forall>s \<in> set (vertices g). \<exists>st. dijkstra_from g w s = Some st"
    using dijkstra_from_returns [OF assms(1)] vertices_bound by blast
  then obtain r where "aggregate (dijkstra_from g w) g (vertices g) (vb, eb) = Some r" "nonneg_maps r"
    using aggregate_nonneg [OF _ assms(2)] by blast
  then show ?thesis
    by (simp add: weighted_brandes_betweenness_centrality_def)
qed

lemma normalize_nonneg:
  assumes "nonneg_maps (vb, eb)"
  shows "nonneg_maps (prod.swap (normalize_betweenness g eb vb n))"
proof -
  have v: "0 \<le> fold (scale_vertex g (vfactor g n)) [0..<k] vb x" for k x
    using assms vfactor_pos [of g n]
    by (simp add: fold_scale_vertex nonneg_maps_def)
  have e: "0 \<le> fold (scale_edge (efactor g n)) (edges g) eb x" for x
    using assms efactor_pos [of g n]
    by (simp add: fold_scale_edge edges_def nonneg_maps_def)
  show ?thesis
    using v e by (simp add: normalize_betweenness_def nonneg_maps_def)
qed

lemma get_betweenness_nonneg:
  assumes "wf_graph g" "nonneg_maps (vb, eb)"
  shows "\<exists>eb' vb'. get_betweenness brandes_betweenness_centrality g eb vb nf n = Some (Inr (eb', vb'))
           \<and> nonneg_maps (vb', eb')"
proof -
  obtain vb1 eb1 where r: "brandes_betweenness_centrality g vb eb = Some (vb1, eb1)"
    and n: "nonneg_maps (vb1, eb1)"
    using brandes_nonneg [OF assms] by auto
  show ?thesis
  proof (cases nf)
    case True
    obtain eb2 vb2 where z: "normalize_betweenness g eb1 vb1 n = (eb2, vb2)"
      by (cases "normalize_betweenness g eb1 vb1 n")
    then have "nonneg_maps (vb2, eb2)" using normalize_nonneg [OF n, of g n] by simp
    then show ?thesis using r z True by (simp add: get_betweenness_def)
  next
    case False
    then show ?thesis using r n by (simp add: get_betweenness_def)
  qed
qed

lemma get_weighted_betweenness_nonneg:
  assumes "wf_graph g" "nonneg_maps (vb, eb)"
  shows "get_weighted_betweenness weighted_brandes_betweenness_centrality g T eb vb weight nf n
           = Some (Inl bad_any_cast)
         \<or> (\<exists>eb' vb'. get_weighted_betweenness weighted_brandes_betweenness_centrality g T eb vb
                         weight nf n = Some (Inr (eb', vb'))
               \<and> nonneg_maps (vb', eb'))"
proof (cases "any_cast T weight")
  case (Inl ex)
  then have "ex = bad_any_cast"
    by (auto simp: any_cast_def split: any.splits if_splits)
  with Inl show ?thesis by (simp add: get_weighted_betweenness_def)
next
  case (Inr w)
  obtain vb1 eb1 where r: "weighted_brandes_betweenness_centrality g vb eb w = Some (vb1, eb1)"
    and n: "nonneg_maps (vb1, eb1)"
    using weighted_brandes_nonneg [OF assms, of w] by auto
  show ?thesis
  proof (cases nf)
    case True
    obtain eb2 vb2 where z: "normalize_betweenness g eb1 vb1 n = (eb2, vb2)"
      by (cases "normalize_betweenness g eb1 vb1 n")
    then have "nonneg_maps (vb2, eb2)" using normalize_nonneg [OF n, of g n] by simp
    then show ?thesis using r z True Inr by (simp add: get_weighted_betweenness_def)
  next
    case False
    then show ?thesis using r n Inr by (simp add: get_weighted_betweenness_def)
  qed
qed

lemma run_action_nonneg:
  assumes "nonneg_maps (vb, eb)"
    and "\<And>T. action T eb vb = Some (Inl bad_any_cast)
           \<or> (\<exists>eb' vb'. action T eb vb = Some (Inr (eb', vb')) \<and> nonneg_maps (vb', eb'))"
  shows "\<exists>ex eb' vb'. run_action TR1 TR2 action (AnyMap ke te eb) (AnyMap kv tv vb)
           = Some (ex, AnyMap ke te eb', AnyMap kv tv vb') \<and> nonneg_maps (vb', eb')"
proof (cases "(ke, te) \<in> set TR1 \<and> (kv, tv) \<in> set TR2")
  case True
  from assms(2) [of "(ke, te)"] show ?thesis
  proof
    assume "action (ke, te) eb vb = Some (Inl bad_any_cast)"
    then show ?thesis using True assms(1) by (simp add: run_action_def)
  next
    assume "\<exists>eb' vb'. action (ke, te) eb vb = Some (Inr (eb', vb')) \<and> nonneg_maps (vb', eb')"
    then show ?thesis using True by (auto simp: run_action_def)
  qed
next
  case False
  then show ?thesis using assms(1) by (auto simp: run_action_def)
qed

text \<open>
  C6. For every well-formed graph and every call of \<^verbatim>\<open>betweenness\<close> whose two output
  arguments hold maps that are zero everywhere (of whatever key and value type, with or
  without weights, with or without normalization), the call returns, and every value of the
  vertex map and of the edge map it leaves is at least 0.
\<close>

theorem betweenness_nonneg:
  assumes "wf_graph (view g)"
  shows "\<exists>ex eb' vb'.
           betweenness brandes_betweenness_centrality weighted_brandes_betweenness_centrality g
             weight (AnyMap ke te zero_map) (AnyMap kv tv zero_map) nf
             = Some (ex, AnyMap ke te eb', AnyMap kv tv vb')
           \<and> (\<forall>v. 0 \<le> vb' v) \<and> (\<forall>e. 0 \<le> eb' e)"
proof -
  have z: "nonneg_maps (zero_map, zero_map)" by (simp add: nonneg_maps_def zero_map_def)
  have u: "\<exists>ex eb' vb'. run_action edge_floating_properties vertex_floating_properties
             (\<lambda>T eb vb. get_betweenness brandes_betweenness_centrality (view g) eb vb nf
                          (GetNumberOfVertices g))
             (AnyMap ke te zero_map) (AnyMap kv tv zero_map)
           = Some (ex, AnyMap ke te eb', AnyMap kv tv vb') \<and> nonneg_maps (vb', eb')"
    using get_betweenness_nonneg [OF assms z] by (intro run_action_nonneg [OF z]) blast
  have w: "\<exists>ex eb' vb'. run_action edge_floating_properties vertex_floating_properties
             (\<lambda>T eb vb. get_weighted_betweenness weighted_brandes_betweenness_centrality (view g)
                          T eb vb weight nf (GetNumberOfVertices g))
             (AnyMap ke te zero_map) (AnyMap kv tv zero_map)
           = Some (ex, AnyMap ke te eb', AnyMap kv tv vb') \<and> nonneg_maps (vb', eb')"
    using get_weighted_betweenness_nonneg [OF assms z] by (intro run_action_nonneg [OF z]) blast
  have "\<exists>ex eb' vb'.
           betweenness brandes_betweenness_centrality weighted_brandes_betweenness_centrality g
             weight (AnyMap ke te zero_map) (AnyMap kv tv zero_map) nf
             = Some (ex, AnyMap ke te eb', AnyMap kv tv vb') \<and> nonneg_maps (vb', eb')"
    using u w z by (simp add: betweenness_def)
  then show ?thesis by (auto simp: nonneg_maps_def)
qed

theorem betweenness_nonneg_witness:
  "wf_graph (view star4_interface)
   \<and> (\<exists>ex eb' vb'.
         betweenness brandes_betweenness_centrality weighted_brandes_betweenness_centrality
           star4_interface AnyEmpty (AnyMap edge_key Double zero_map)
           (AnyMap vertex_key Double zero_map) True
           = Some (ex, AnyMap edge_key Double eb', AnyMap vertex_key Double vb')
         \<and> (\<forall>v. 0 \<le> vb' v) \<and> (\<forall>e. 0 \<le> eb' e))"
  using betweenness_nonneg [of star4_interface AnyEmpty edge_key Double vertex_key Double True]
  by (simp add: wf_graph_def star4_def star4_interface_def)

subsection \<open>Vertices without a path are skipped\<close>

lemma back_edge_flag:
  "zero_division (back_edge sigma w ev a) = (zero_division a \<or> sigma w = 0)"
  by (cases ev) (simp add: back_edge_def Let_def)

lemma fold_back_edge_flag:
  "sigma w \<noteq> 0 \<Longrightarrow> zero_division (fold (back_edge sigma w) evs a) = zero_division a"
  by (induction evs arbitrary: a) (simp_all add: back_edge_flag)

lemma back_vertex_flag: "zero_division (back_vertex st s w a) = zero_division a"
  by (simp add: back_vertex_def Let_def fold_back_edge_flag)

lemma fold_back_vertex_flag:
  "zero_division (fold (back_vertex st s) ws a) = zero_division a"
  by (induction ws arbitrary: a) (simp_all add: back_vertex_flag)

lemma init_search_unvisited: "unvisited_inv (init_search s d0)"
  by (simp add: unvisited_inv_def init_search_def)

lemma bfs_relax_unvisited:
  "unvisited_inv st \<Longrightarrow> unvisited_inv (bfs_relax du u ev st)"
  by (cases ev) (auto simp: unvisited_inv_def bfs_relax_def add_path_def Let_def
      split: option.splits if_splits)

lemma fold_bfs_relax_unvisited:
  "unvisited_inv st \<Longrightarrow> unvisited_inv (fold (bfs_relax du u) evs st)"
  by (induction evs arbitrary: st) (simp_all add: bfs_relax_unvisited)

lemma bfs_visit_unvisited:
  assumes "unvisited_inv st"
  shows "unvisited_inv (bfs_visit g u q st)"
proof -
  have "unvisited_inv (st\<lparr>queue := q, ordered_vertices := u # ordered_vertices st\<rparr>)"
    using assms by (simp add: unvisited_inv_def)
  then show ?thesis
    by (simp add: bfs_visit_def Let_def fold_bfs_relax_unvisited split: option.splits)
qed

lemma bfs_loop_unvisited:
  "unvisited_inv st \<Longrightarrow> bfs_loop k g st = Some st' \<Longrightarrow> unvisited_inv st'"
proof (induction k arbitrary: st)
  case 0
  then show ?case by (simp split: if_splits)
next
  case (Suc k)
  then show ?case
    by (cases "queue st") (auto dest: bfs_visit_unvisited)
qed

lemma bfs_from_unvisited:
  "bfs_from g s = Some st \<Longrightarrow> distance_map st v = None \<Longrightarrow> path_count_map st v = 0"
  using bfs_loop_unvisited [OF init_search_unvisited, of "num_vertices g" g s 0 st]
  by (simp add: bfs_from_def unvisited_inv_def)

lemma dijkstra_relax_unvisited:
  "unvisited_inv st \<Longrightarrow> unvisited_inv (dijkstra_relax w du u ev st)"
  by (cases ev) (auto simp: unvisited_inv_def dijkstra_relax_def add_path_def Let_def
      split: option.splits if_splits)

lemma fold_dijkstra_relax_unvisited:
  "unvisited_inv st \<Longrightarrow> unvisited_inv (fold (dijkstra_relax w du u) evs st)"
  by (induction evs arbitrary: st) (simp_all add: dijkstra_relax_unvisited)

lemma dijkstra_visit_unvisited:
  assumes "unvisited_inv st"
  shows "unvisited_inv (dijkstra_visit g w u q st)"
proof -
  have "unvisited_inv (st\<lparr>queue := q, ordered_vertices := u # ordered_vertices st\<rparr>)"
    using assms by (simp add: unvisited_inv_def)
  then show ?thesis
    by (simp add: dijkstra_visit_def Let_def fold_dijkstra_relax_unvisited split: option.splits)
qed

lemma dijkstra_loop_unvisited:
  "unvisited_inv st \<Longrightarrow> dijkstra_loop k g w st = Some st' \<Longrightarrow> unvisited_inv st'"
proof (induction k arbitrary: st)
  case 0
  then show ?case by (simp split: if_splits)
next
  case (Suc k)
  then show ?case
    by (cases "queue st") (auto simp: Let_def dest: dijkstra_visit_unvisited)
qed

lemma dijkstra_from_unvisited:
  "dijkstra_from g w s = Some st \<Longrightarrow> distance_map st v = None \<Longrightarrow> path_count_map st v = 0"
  using dijkstra_loop_unvisited [OF init_search_unvisited, of "num_vertices g" g w s 0 st]
  by (simp add: dijkstra_from_def unvisited_inv_def)

text \<open>
  C7. In the back-propagation pass of any source \<open>s\<close>, a vertex \<open>w\<close> with \<open>sigma w = 0\<close> is
  skipped: the pass leaves every accumulator (dependency, vertex betweenness, edge
  betweenness) as it was. So it is with every vertex that the traversal from \<open>s\<close>, unweighted
  or weighted, never reached. Over any sequence of vertices the pass never divides by a zero
  \<open>sigma\<close>: the record of such a division stays as it was, so it is unset after the pass,
  which starts with it unset.
\<close>

theorem back_propagation_skips_zero_sigma:
  "(path_count_map st w = 0 \<longrightarrow> back_vertex st s w a = a)
   \<and> (bfs_from g s = Some bst \<and> distance_map bst w = None \<longrightarrow> back_vertex bst s w a = a)
   \<and> (dijkstra_from g wt s = Some dst \<and> distance_map dst w = None \<longrightarrow> back_vertex dst s w a = a)
   \<and> zero_division (fold (back_vertex st s) ws a) = zero_division a
   \<and> \<not> zero_division (fold (back_vertex st s) (pass_order g st)
          \<lparr>dependency_map = (\<lambda>v. 0), vertex_acc = vb, edge_acc = eb, zero_division = False\<rparr>)"
  using bfs_from_unvisited [of g s bst w] dijkstra_from_unvisited [of g wt s dst w]
  by (simp add: fold_back_vertex_flag) (auto simp: back_vertex_def)

lemma split_graph_unreached:
  "map_option (\<lambda>st. distance_map st 2) (bfs_from split_graph 0) = Some None"
  by code_simp

theorem back_propagation_skips_zero_sigma_witness:
  "path_count_map (init_search 0 (0::nat)) 1 = 0
   \<and> back_vertex (init_search 0 (0::nat)) 0 1 zero_accumulators = zero_accumulators
   \<and> (\<exists>st. bfs_from split_graph 0 = Some st \<and> distance_map st 2 = None
             \<and> back_vertex st 0 2 zero_accumulators = zero_accumulators)"
proof -
  obtain st where st: "bfs_from split_graph 0 = Some st" "distance_map st 2 = None"
    using split_graph_unreached by auto
  have "back_vertex st 0 2 zero_accumulators = zero_accumulators"
    using back_propagation_skips_zero_sigma [where bst = st and st = st and g = split_graph
        and s = 0 and w = 2 and a = zero_accumulators and wt = zero_map
        and dst = "init_search 0 0" and ws = "[]" and vb = zero_map and eb = zero_map] st
    by simp
  moreover have "path_count_map (init_search 0 (0::nat)) 1 = 0
   \<and> back_vertex (init_search 0 (0::nat)) 0 1 zero_accumulators = zero_accumulators"
    using back_propagation_skips_zero_sigma [where st = "init_search 0 (0::nat)" and w = 1
        and s = 0 and a = zero_accumulators and g = split_graph and bst = st and wt = zero_map
        and dst = "init_search 0 0" and ws = "[]" and vb = zero_map and eb = zero_map]
    by (simp add: init_search_def)
  ultimately show ?thesis
    using st back_propagation_skips_zero_sigma [where bst = st and st = st and g = split_graph
        and s = 0 and w = 2 and a = zero_accumulators and wt = zero_map
        and dst = "init_search 0 0" and ws = "[]" and vb = zero_map and eb = zero_map]
    by blast
qed

subsection \<open>Unit weights\<close>

lemma to_real_fields [simp]:
  "distance_map (to_real st) v = map_option real (distance_map st v)"
  "path_count_map (to_real st) = path_count_map st"
  "incoming_map (to_real st) = incoming_map st"
  "queue (to_real st) = queue st"
  "ordered_vertices (to_real st) = ordered_vertices st"
  by (simp_all add: to_real_def)



























subsection \<open>The star with four leaves\<close>

text \<open>
  The sums of sections 4.1 to 4.3 on the undirected star with four leaves and zero maps: each
  pair of leaves is met from both of its ends, which gives 12 at the centre, twice the
  \<open>k * (k - 1) / 2 = 6\<close> that section 8 states.
\<close>

lemma star4_sums_as_specified:
  "map_option (\<lambda>(vb, eb). map vb [0, 1, 2, 3, 4])
     (brandes_betweenness_centrality star4 zero_map zero_map) = Some [12, 0, 0, 0, 0]"
  by code_simp

end
